theory Spec2Isabelle
  imports Complex_Main "HOL-Library.Word"
begin

section \<open>JavaScript values\<close>

text \<open>
  A JavaScript string is a sequence of UTF-16 code units. A thrown value is a
  \<open>js_error\<close>; a function that can throw returns \<open>js_error + 'a\<close>, with
  \<open>Inl\<close> the thrown value. A number stored in a \<open>Float32Array\<close> is a real or
  \<open>NaN\<close>. The program divides a 16-bit integer by \<open>32768\<close>, which binary
  floating point does exactly. It also divides a length by a channel count, and uses
  the integer part of the quotient, which is that of the exact quotient for every
  length below \<open>2 ^ 53\<close>, and its comparison with a frame index, where the rounded
  quotient can differ from the exact one only at an index past the end of a channel,
  whose write is ignored. So the reals leave in a buffer what the floats do.
\<close>

type_synonym js_string = "16 word list"

definition js :: "string \<Rightarrow> js_string" where
  "js cs = map of_char cs"

datatype js_error = RangeError | TypeError | DOMException string | Error string

datatype jsnum = Num real | NaN

text \<open>\<open>xs[i]\<close> on an array: \<open>undefined\<close> (here \<open>None\<close>) out of range.\<close>

definition js_index :: "'a list \<Rightarrow> nat \<Rightarrow> 'a option" where
  "js_index xs i = (if i < length xs then Some (xs ! i) else None)"

text \<open>\<open>xs[i] = v\<close> on a typed array: a write out of range is ignored.\<close>

definition typed_set :: "'a list \<Rightarrow> nat \<Rightarrow> 'a \<Rightarrow> 'a list" where
  "typed_set xs i v = (if i < length xs then xs[i := v] else xs)"

text \<open>
  \<open>x / d\<close> where \<open>x\<close> was read from an \<open>Int16Array\<close>: the element is read as a
  signed 16-bit integer, and \<open>undefined / d\<close> is \<open>NaN\<close>.
\<close>

fun int16_div :: "16 word option \<Rightarrow> real \<Rightarrow> jsnum" where
  "int16_div None d = NaN"
| "int16_div (Some x) d = Num (real_of_int (sint x) / d)"

section \<open>\<open>atob\<close>: the platform's base64 decoder\<close>

text \<open>
  \<open>atob\<close> runs the forgiving-base64 decode of the WHATWG Infra standard and throws
  an \<open>InvalidCharacterError\<close> when it fails: ASCII whitespace is removed; one or two
  trailing \<open>=\<close> are removed when the length is a multiple of four; a length that
  leaves remainder one, or a character outside the alphabet, fails; every character
  gives six bits, and the four or two bits left over at the end are discarded.
\<close>

definition isAsciiWhitespace :: "16 word \<Rightarrow> bool" where
  "isAsciiWhitespace c \<longleftrightarrow> c = 9 \<or> c = 10 \<or> c = 12 \<or> c = 13 \<or> c = 32"

definition base64Value :: "16 word \<Rightarrow> nat option" where
  "base64Value c =
     (let n = unat c in
      if 65 \<le> n \<and> n \<le> 90 then Some (n - 65)
      else if 97 \<le> n \<and> n \<le> 122 then Some (n - 71)
      else if 48 \<le> n \<and> n \<le> 57 then Some (n + 4)
      else if n = 43 then Some 62
      else if n = 47 then Some 63
      else None)"

definition stripPadding :: "js_string \<Rightarrow> js_string" where
  "stripPadding d =
     (if length d mod 4 = 0 then
        (if 2 \<le> length d \<and> last d = 61 \<and> last (butlast d) = 61 then butlast (butlast d)
         else if 1 \<le> length d \<and> last d = 61 then butlast d
         else d)
      else d)"

fun sextetBytes :: "nat list \<Rightarrow> 8 word list" where
  "sextetBytes (a # b # c # d # rest) =
     (let n = ((a * 64 + b) * 64 + c) * 64 + d
      in [of_nat (n div 65536), of_nat (n div 256), of_nat n]) @ sextetBytes rest"
| "sextetBytes [a, b, c] =
     (let n = ((a * 64 + b) * 64 + c) div 4 in [of_nat (n div 256), of_nat n])"
| "sextetBytes [a, b] = [of_nat ((a * 64 + b) div 16)]"
| "sextetBytes _ = []"

definition forgivingBase64Decode :: "js_string \<Rightarrow> 8 word list option" where
  "forgivingBase64Decode data =
     (let d = stripPadding (filter (\<lambda>c. \<not> isAsciiWhitespace c) data) in
      if length d mod 4 = 1 then None
      else (case those (map base64Value d) of
              None \<Rightarrow> None
            | Some sextets \<Rightarrow> Some (sextetBytes sextets)))"

definition atob :: "js_string \<Rightarrow> js_error + js_string" where
  "atob data =
     (case forgivingBase64Decode data of
        None \<Rightarrow> Inl (DOMException ''InvalidCharacterError'')
      | Some bytes \<Rightarrow> Inr (map ucast bytes))"

section \<open>\<open>decode\<close>: base64 to bytes\<close>

text \<open>
  The loop \<open>for (let i = 0; i < len; i++) bytes[i] = binaryString.charCodeAt(i)\<close>.
  A \<open>Uint8Array\<close> keeps the low eight bits of what is stored in it.
\<close>

function decode_loop :: "js_string \<Rightarrow> nat \<Rightarrow> nat \<Rightarrow> 8 word list \<Rightarrow> 8 word list" where
  "decode_loop binaryString len i bytes =
     (if i < len
      then decode_loop binaryString len (Suc i)
             (case js_index binaryString i of
                None \<Rightarrow> typed_set bytes i 0
              | Some c \<Rightarrow> typed_set bytes i (ucast c))
      else bytes)"
  by pat_completeness auto
termination
  by (relation "measure (\<lambda>(binaryString, len, i, bytes). len - i)") auto

definition decode :: "js_string \<Rightarrow> js_error + 8 word list" where
  "decode base64 =
     (case atob base64 of
        Inl e \<Rightarrow> Inl e
      | Inr binaryString \<Rightarrow>
          (let len = length binaryString;
               bytes = replicate len 0
           in Inr (decode_loop binaryString len 0 bytes)))"

section \<open>\<open>decodeAudioData\<close>: bytes to an audio buffer\<close>

text \<open>
  \<open>new Int16Array(data.buffer)\<close> views the bytes of the buffer as 16-bit integers in
  the byte order of the platform, little-endian here as on every platform that runs a
  browser. The constructor throws a \<open>RangeError\<close> when the byte length of the buffer
  is not a multiple of the element size. The \<open>Uint8Array\<close> that \<open>decode\<close> returns
  owns its whole buffer, so the buffer is the byte list itself.
\<close>

fun int16View :: "8 word list \<Rightarrow> 16 word list" where
  "int16View (lo # hi # rest) = (ucast hi * 256 + ucast lo) # int16View rest"
| "int16View _ = []"

definition Int16Array :: "8 word list \<Rightarrow> js_error + 16 word list" where
  "Int16Array buffer =
     (if length buffer mod 2 \<noteq> 0 then Inl RangeError else Inr (int16View buffer))"

text \<open>
  An \<open>AudioContext\<close> carries the limits of its implementation: the Web Audio API
  lets an implementation bound the number of channels (at least 32 are supported) and
  the sample rate (at least 8000 to 96000 Hz are supported) of a buffer.
\<close>

record AudioContext =
  maxChannels :: nat
  minSampleRate :: real
  maxSampleRate :: real

record AudioBuffer =
  channels :: "jsnum list list"
  bufferRate :: real

text \<open>
  The conversion of a number to the \<open>unsigned long\<close> of a Web IDL argument, for the
  finite numbers that are not negative: the fraction is dropped and the integer is
  reduced modulo \<open>2 ^ 32\<close>.
\<close>

definition toUnsignedLong :: "real \<Rightarrow> nat" where
  "toUnsignedLong x = nat \<lfloor>x\<rfloor> mod 2 ^ 32"

text \<open>
  \<open>ctx.createBuffer(numberOfChannels, length, sampleRate)\<close> throws a
  \<open>NotSupportedError\<close> when an argument is zero or outside its nominal range, and
  otherwise returns a buffer of silence.
\<close>

definition createBuffer :: "AudioContext \<Rightarrow> nat \<Rightarrow> real \<Rightarrow> real \<Rightarrow> js_error + AudioBuffer" where
  "createBuffer ctx numberOfChannels len sampleRate =
     (let n = numberOfChannels mod 2 ^ 32;
          l = toUnsignedLong len
      in if n = 0 \<or> maxChannels ctx < n \<or> l = 0
            \<or> sampleRate < minSampleRate ctx \<or> maxSampleRate ctx < sampleRate
         then Inl (DOMException ''NotSupportedError'')
         else Inr \<lparr>channels = replicate n (replicate l (Num 0)), bufferRate = sampleRate\<rparr>)"

text \<open>
  \<open>buffer.getChannelData(channel)\<close> throws an \<open>IndexSizeError\<close> for a channel the
  buffer does not have.
\<close>

definition getChannelData :: "AudioBuffer \<Rightarrow> nat \<Rightarrow> js_error + jsnum list" where
  "getChannelData buffer channel =
     (if channel < length (channels buffer) then Inr (channels buffer ! channel)
      else Inl (DOMException ''IndexSizeError''))"

text \<open>
  The inner loop \<open>for (let i = 0; i < frameCount; i++)\<close>. \<open>frameCount\<close> is the
  quotient of two numbers and need not be an integer.
\<close>

function frame_loop ::
  "16 word list \<Rightarrow> nat \<Rightarrow> real \<Rightarrow> nat \<Rightarrow> nat \<Rightarrow> jsnum list \<Rightarrow> jsnum list" where
  "frame_loop dataInt16 numChannels frameCount channel i channelData =
     (if real i < frameCount
      then frame_loop dataInt16 numChannels frameCount channel (Suc i)
             (typed_set channelData i
                (int16_div (js_index dataInt16 (i * numChannels + channel)) 32768))
      else channelData)"
  by pat_completeness auto
termination
proof (relation "measure (\<lambda>(d, n, frameCount, c, i, cd). nat \<lceil>frameCount\<rceil> - i)")
  show "wf (measure (\<lambda>(d, n, frameCount, c, i, cd). nat \<lceil>frameCount\<rceil> - i))"
    by simp
next
  fix dataInt16 :: "16 word list" and numChannels :: nat and frameCount :: real
    and channel i :: nat and channelData :: "jsnum list"
  assume "real i < frameCount"
  then have "int i < \<lceil>frameCount\<rceil>"
    by (simp add: less_ceiling_iff)
  then have "i < nat \<lceil>frameCount\<rceil>"
    by linarith
  then show "((dataInt16, numChannels, frameCount, channel, Suc i,
               typed_set channelData i
                 (int16_div (js_index dataInt16 (i * numChannels + channel)) 32768)),
              (dataInt16, numChannels, frameCount, channel, i, channelData))
             \<in> measure (\<lambda>(d, n, frameCount, c, i, cd). nat \<lceil>frameCount\<rceil> - i)"
    by simp
qed

text \<open>
  The outer loop \<open>for (let channel = 0; channel < numChannels; channel++)\<close>. The
  array that \<open>getChannelData\<close> returns is the channel of the buffer itself, so the
  writes of the inner loop change the buffer.
\<close>

function channel_loop ::
  "16 word list \<Rightarrow> nat \<Rightarrow> real \<Rightarrow> nat \<Rightarrow> AudioBuffer \<Rightarrow> js_error + AudioBuffer" where
  "channel_loop dataInt16 numChannels frameCount channel buffer =
     (if channel < numChannels
      then (case getChannelData buffer channel of
              Inl e \<Rightarrow> Inl e
            | Inr channelData \<Rightarrow>
                channel_loop dataInt16 numChannels frameCount (Suc channel)
                  (buffer\<lparr>channels := (channels buffer)
                       [channel := frame_loop dataInt16 numChannels frameCount channel 0 channelData]\<rparr>))
      else Inr buffer)"
  by pat_completeness auto
termination
  by (relation "measure (\<lambda>(d, numChannels, f, channel, b). numChannels - channel)") auto

definition decodeAudioData ::
  "8 word list \<Rightarrow> AudioContext \<Rightarrow> real \<Rightarrow> nat \<Rightarrow> js_error + AudioBuffer" where
  "decodeAudioData data ctx sampleRate numChannels =
     (case Int16Array data of
        Inl e \<Rightarrow> Inl e
      | Inr dataInt16 \<Rightarrow>
          (let frameCount = real (length dataInt16) / real numChannels in
           case createBuffer ctx numChannels frameCount sampleRate of
             Inl e \<Rightarrow> Inl e
           | Inr buffer \<Rightarrow> channel_loop dataInt16 numChannels frameCount 0 buffer))"

section \<open>The two requests to the generation service\<close>

text \<open>
  A promise of the platform settles with a value or with a reason. Each request
  function awaits \<open>ai.models.generateContent\<close> once; the model of the function is
  what it does once that promise has settled: the values it passes to
  \<open>console.error\<close>, and what it returns or throws.
\<close>

datatype 'a settled = Rejected js_error | Resolved 'a

definition isWhiteSpace :: "16 word \<Rightarrow> bool" where
  "isWhiteSpace c \<longleftrightarrow>
     c \<in> set [0x9, 0xA, 0xB, 0xC, 0xD, 0x20, 0xA0, 0x1680, 0x2028, 0x2029, 0x202F, 0x205F,
              0x3000, 0xFEFF]
     \<or> (0x2000 \<le> c \<and> c \<le> 0x200A)"

text \<open>\<open>String.prototype.trim\<close>: white space and line terminators go, at both ends.\<close>

definition trim :: "js_string \<Rightarrow> js_string" where
  "trim s = rev (dropWhile isWhiteSpace (rev (dropWhile isWhiteSpace s)))"

text \<open>
  \<open>getReflection\<close>, with the \<open>text\<close> of the response (\<open>None\<close> when the response
  has none, and \<open>response.text.trim()\<close> throws a \<open>TypeError\<close>).
\<close>

definition getReflection :: "js_string option settled \<Rightarrow> js_error list \<times> (js_error + js_string)" where
  "getReflection response =
     (case response of
        Rejected err \<Rightarrow> ([err], Inl (Error ''Failed to get reflection from Gemini API.''))
      | Resolved None \<Rightarrow> ([TypeError], Inl (Error ''Failed to get reflection from Gemini API.''))
      | Resolved (Some text) \<Rightarrow> ([], Inr (trim text)))"

text \<open>
  \<open>getSpokenReflection\<close>, with
  \<open>response.candidates?.[0]?.content?.parts?.[0]?.inlineData?.data\<close> (\<open>None\<close> when
  the chain ends in \<open>undefined\<close>). The empty string is falsy as \<open>undefined\<close> is. The
  error thrown for a missing payload is thrown inside the \<open>try\<close>, so the \<open>catch\<close>
  of the function logs it and throws the error of every other failure.
\<close>

definition getSpokenReflection :: "js_string option settled \<Rightarrow> js_error list \<times> (js_error + js_string)" where
  "getSpokenReflection response =
     (case response of
        Rejected err \<Rightarrow>
          ([err], Inl (Error ''Failed to get spoken reflection from Gemini API.''))
      | Resolved None \<Rightarrow>
          ([Error ''No audio data returned from API.''],
           Inl (Error ''Failed to get spoken reflection from Gemini API.''))
      | Resolved (Some base64Audio) \<Rightarrow>
          (if base64Audio = []
           then ([Error ''No audio data returned from API.''],
                 Inl (Error ''Failed to get spoken reflection from Gemini API.''))
           else ([], Inr base64Audio)))"

section \<open>The component \<open>App\<close>\<close>

text \<open>
  The state of the component: the seven \<open>useState\<close> cells, the two refs, and what
  the component has outstanding in its environment. \<open>listenCall\<close> is the suspended
  call of \<open>handleListen\<close> with the variables it closed over, \<open>submitCall\<close> says
  that a call of \<open>handleSubmit\<close> is suspended, \<open>playing\<close> are the source nodes
  that were started and have neither been stopped nor reached their end,
  \<open>onended\<close> are the nodes whose \<open>onended\<close> callback is set, and \<open>trace\<close> lists,
  in order, the calls the component made on the audio graph, the service and the
  console. A source node is known by a number; \<open>nextHandle\<close> is the next one.
\<close>

type_synonym handle = nat

datatype effect =
    ContextCreate
  | ContextResume
  | SpeechRequest js_string js_string
  | GenerateRequest js_string
  | SourceCreate handle AudioBuffer
  | SourceConnect handle
  | SourceStart handle
  | SourceStop handle
  | SourceDisconnect handle
  | ConsoleError js_error

datatype listen_await =
    AwaitResume AudioContext js_string js_string
  | AwaitSpeech AudioContext

record app =
  userInput :: js_string
  reflection :: js_string
  isLoading :: bool
  error :: "js_string option"
  isSpeaking :: bool
  isFetchingAudio :: bool
  selectedVoice :: js_string
  audioContextRef :: "AudioContext option"
  audioSourceRef :: "handle option"
  listenCall :: "listen_await option"
  submitCall :: bool
  playing :: "handle list"
  onended :: "handle list"
  nextHandle :: handle
  trace :: "effect list"

definition initial :: app where
  "initial =
     \<lparr>userInput = [], reflection = [], isLoading = False, error = None, isSpeaking = False,
      isFetchingAudio = False, selectedVoice = js ''Kore'', audioContextRef = None,
      audioSourceRef = None, listenCall = None, submitCall = False, playing = [],
      onended = [], nextHandle = 0, trace = []\<rparr>"

definition stopPlayback :: "app \<Rightarrow> app" where
  "stopPlayback s =
     (let s1 = (case audioSourceRef s of
                  None \<Rightarrow> s
                | Some source \<Rightarrow>
                    s\<lparr>onended := removeAll source (onended s),
                      playing := removeAll source (playing s),
                      trace := trace s @ [SourceStop source, SourceDisconnect source],
                      audioSourceRef := None\<rparr>)
      in s1\<lparr>isSpeaking := False\<rparr>)"

subsection \<open>\<open>handleListen\<close>\<close>

text \<open>
  What the environment answers during a call: what
  \<open>new AudioContext({ sampleRate: 24000 })\<close> returns or throws, and whether the state
  of the context is \<open>suspended\<close>.
\<close>

record platform =
  newAudioContext :: "js_error + AudioContext"
  contextSuspended :: bool

definition speakError :: js_string where
  "speakError = js ''Sorry, the reflection could not be spoken at this time.''"

text \<open>The \<open>catch\<close> and the \<open>finally\<close> of \<open>handleListen\<close>, which end the call.\<close>

definition listenFailed :: "js_error \<Rightarrow> app \<Rightarrow> app" where
  "listenFailed err s =
     s\<lparr>error := Some speakError,
       trace := trace s @ [ConsoleError err],
       isSpeaking := False,
       isFetchingAudio := False,
       listenCall := None\<rparr>"

text \<open>The call of \<open>getSpokenReflection\<close>, up to the promise it awaits.\<close>

definition requestSpeech :: "AudioContext \<Rightarrow> js_string \<Rightarrow> js_string \<Rightarrow> app \<Rightarrow> app" where
  "requestSpeech audioContext text voice s =
     s\<lparr>trace := trace s @ [SpeechRequest text voice],
       listenCall := Some (AwaitSpeech audioContext)\<rparr>"

text \<open>
  The call of \<open>handleListen\<close>, up to its first \<open>await\<close>. The flags and the voice
  are those of the state the handler was rendered with.
\<close>

definition handleListen :: "js_string \<Rightarrow> platform \<Rightarrow> app \<Rightarrow> app" where
  "handleListen text w s =
     (if isSpeaking s then stopPlayback s
      else if isFetchingAudio s then s
      else
        (let s1 = s\<lparr>isFetchingAudio := True, error := None\<rparr> in
         case (case audioContextRef s1 of
                 Some c \<Rightarrow> Inr (c, s1)
               | None \<Rightarrow>
                   (case newAudioContext w of
                      Inl e \<Rightarrow> Inl e
                    | Inr c \<Rightarrow>
                        Inr (c, s1\<lparr>audioContextRef := Some c,
                                   trace := trace s1 @ [ContextCreate]\<rparr>))) of
           Inl e \<Rightarrow> listenFailed e s1
         | Inr (audioContext, s2) \<Rightarrow>
             if contextSuspended w
             then s2\<lparr>trace := trace s2 @ [ContextResume],
                     listenCall := Some (AwaitResume audioContext text (selectedVoice s))\<rparr>
             else requestSpeech audioContext text (selectedVoice s) s2))"

text \<open>The call goes on when \<open>audioContext.resume()\<close> has settled.\<close>

definition resumeSettled :: "unit settled \<Rightarrow> app \<Rightarrow> app" where
  "resumeSettled r s =
     (case listenCall s of
        Some (AwaitResume audioContext text voice) \<Rightarrow>
          (case r of
             Rejected e \<Rightarrow> listenFailed e s
           | Resolved u \<Rightarrow> requestSpeech audioContext text voice s)
      | _ \<Rightarrow> s)"

text \<open>
  The rest of the \<open>try\<close> block up to the buffer: \<open>getSpokenReflection\<close> returns,
  then \<open>decode\<close>, then \<open>decodeAudioData\<close> with 24000 Hz and one channel.
\<close>

definition fetchAudioBuffer ::
  "js_string option settled \<Rightarrow> AudioContext \<Rightarrow> js_error list \<times> (js_error + AudioBuffer)" where
  "fetchAudioBuffer response audioContext =
     (case getSpokenReflection response of
        (logged, Inl e) \<Rightarrow> (logged, Inl e)
      | (logged, Inr base64Audio) \<Rightarrow>
          (case decode base64Audio of
             Inl e \<Rightarrow> (logged, Inl e)
           | Inr audioBytes \<Rightarrow> (logged, decodeAudioData audioBytes audioContext 24000 1)))"

text \<open>The end of the \<open>try\<close> block: the source node is made, wired and started.\<close>

definition startSource :: "AudioBuffer \<Rightarrow> app \<Rightarrow> app" where
  "startSource audioBuffer s =
     (let source = nextHandle s in
      s\<lparr>nextHandle := Suc source,
        trace := trace s @ [SourceCreate source audioBuffer, SourceConnect source,
                            SourceStart source],
        onended := source # onended s,
        playing := source # playing s,
        audioSourceRef := Some source,
        isSpeaking := True,
        isFetchingAudio := False,
        listenCall := None\<rparr>)"

text \<open>The call goes on when the request for speech has settled.\<close>

definition speechSettled :: "js_string option settled \<Rightarrow> app \<Rightarrow> app" where
  "speechSettled response s =
     (case listenCall s of
        Some (AwaitSpeech audioContext) \<Rightarrow>
          (case fetchAudioBuffer response audioContext of
             (logged, r) \<Rightarrow>
               (let s1 = s\<lparr>trace := trace s @ map ConsoleError logged\<rparr> in
                case r of
                  Inl e \<Rightarrow> listenFailed e s1
                | Inr audioBuffer \<Rightarrow> startSource audioBuffer s1))
      | _ \<Rightarrow> s)"

text \<open>
  A playing source reaches the end of its buffer: the graph fires \<open>ended\<close>, and the
  callback runs if it is still set.
\<close>

definition sourceEnded :: "handle \<Rightarrow> app \<Rightarrow> app" where
  "sourceEnded h s =
     (if h \<in> set (playing s)
      then (let s1 = s\<lparr>playing := removeAll h (playing s)\<rparr> in
            if h \<in> set (onended s1) then s1\<lparr>isSpeaking := False, audioSourceRef := None\<rparr>
            else s1)
      else s)"

subsection \<open>\<open>handleSubmit\<close>\<close>

definition generateError :: js_string where
  "generateError =
     js ''A reflection could not be generated. The engine is offline. Please try again.''"

text \<open>The call of \<open>handleSubmit\<close>, up to the promise of \<open>getReflection\<close>.\<close>

definition handleSubmit :: "app \<Rightarrow> app" where
  "handleSubmit s =
     (if trim (userInput s) = [] \<or> isLoading s then s
      else
        (let s1 = stopPlayback s;
             s2 = s1\<lparr>isLoading := True, error := None, reflection := []\<rparr>
         in s2\<lparr>trace := trace s2 @ [GenerateRequest (userInput s)], submitCall := True\<rparr>))"

text \<open>The call goes on when the request for a reflection has settled.\<close>

definition reflectionSettled :: "js_string option settled \<Rightarrow> app \<Rightarrow> app" where
  "reflectionSettled response s =
     (if submitCall s
      then (case getReflection response of
              (logged, r) \<Rightarrow>
                (let s1 = s\<lparr>trace := trace s @ map ConsoleError logged\<rparr>;
                     s2 = (case r of
                             Inr result \<Rightarrow> s1\<lparr>reflection := result, userInput := []\<rparr>
                           | Inl err \<Rightarrow>
                               s1\<lparr>error := Some generateError,
                                  trace := trace s1 @ [ConsoleError err]\<rparr>)
                 in s2\<lparr>isLoading := False, submitCall := False\<rparr>))
      else s)"

subsection \<open>The component in its environment\<close>

text \<open>
  What can happen to the component, one handler at a time: JavaScript runs a handler
  to its next \<open>await\<close> before anything else runs, and a handler reads the state
  that the handlers before it have written (the component has been rendered again
  in between). \<open>Unmount\<close> is the cleanup of the effect. The controls that the
  component disables only take events away, so that every state the component can
  be in is a state of \<open>run\<close>.
\<close>

datatype event =
    Listen js_string platform
  | ResumeSettled "unit settled"
  | SpeechSettled "js_string option settled"
  | Ended handle
  | Submit
  | ReflectionSettled "js_string option settled"
  | Typed js_string
  | VoiceChosen js_string
  | Unmount

fun step :: "event \<Rightarrow> app \<Rightarrow> app" where
  "step (Listen text w) s = handleListen text w s"
| "step (ResumeSettled r) s = resumeSettled r s"
| "step (SpeechSettled r) s = speechSettled r s"
| "step (Ended h) s = sourceEnded h s"
| "step Submit s = handleSubmit s"
| "step (ReflectionSettled r) s = reflectionSettled r s"
| "step (Typed v) s = s\<lparr>userInput := v\<rparr>"
| "step (VoiceChosen v) s = s\<lparr>selectedVoice := v\<rparr>"
| "step Unmount s = stopPlayback s"

definition run :: "event list \<Rightarrow> app" where
  "run es = foldl (\<lambda>s e. step e s) initial es"

text \<open>The three states of the playback controller, read off the two flags.\<close>

datatype controller = Idle | Fetching | Playing

definition controllerState :: "app \<Rightarrow> controller" where
  "controllerState s =
     (if isSpeaking s then Playing else if isFetchingAudio s then Fetching else Idle)"

text \<open>
  What holds of the component whatever happens to it: the source node in the ref is the
  one that plays, and it plays with its callback set; the flag \<open>isSpeaking\<close> says that
  there is one; a call of \<open>handleListen\<close> is suspended exactly while
  \<open>isFetchingAudio\<close> is set, and nothing plays meanwhile.
\<close>

definition single_source :: "app \<Rightarrow> bool" where
  "single_source s \<longleftrightarrow>
     playing s = (case audioSourceRef s of None \<Rightarrow> [] | Some h \<Rightarrow> [h]) \<and>
     isSpeaking s = (audioSourceRef s \<noteq> None) \<and>
     isFetchingAudio s = (listenCall s \<noteq> None) \<and>
     \<not> (isFetchingAudio s \<and> isSpeaking s) \<and>
     set (playing s) \<subseteq> set (onended s) \<and>
     isLoading s = submitCall s"

text \<open>The texts of the requests for a reflection in a trace, in order.\<close>

fun generateRequests :: "effect list \<Rightarrow> js_string list" where
  "generateRequests [] = []"
| "generateRequests (GenerateRequest text # tr) = text # generateRequests tr"
| "generateRequests (_ # tr) = generateRequests tr"

fun isReflectionSettled :: "event \<Rightarrow> bool" where
  "isReflectionSettled (ReflectionSettled r) = True"
| "isReflectionSettled _ = False"

text \<open>
  A context with the smallest limits the Web Audio API allows, and an environment
  that hands it out running.
\<close>

definition minimalContext :: AudioContext where
  "minimalContext = \<lparr>maxChannels = 32, minSampleRate = 8000, maxSampleRate = 96000\<rparr>"

definition readyPlatform :: platform where
  "readyPlatform = \<lparr>newAudioContext = Inr minimalContext, contextSuspended = False\<rparr>"

text \<open>
  Three states of the component that the proofs below run the handlers on: a call of
  \<open>handleListen\<close> waits for the speech, waits for the context to resume, and the
  speech plays.
\<close>

definition fetching :: "js_string \<Rightarrow> app" where
  "fetching text = initial\<lparr>isFetchingAudio := True, audioContextRef := Some minimalContext,
      trace := [ContextCreate, SpeechRequest text (js ''Kore'')],
      listenCall := Some (AwaitSpeech minimalContext)\<rparr>"

definition resuming :: "js_string \<Rightarrow> app" where
  "resuming t = initial\<lparr>isFetchingAudio := True, audioContextRef := Some minimalContext,
      trace := [ContextCreate, ContextResume],
      listenCall := Some (AwaitResume minimalContext t (js ''Kore''))\<rparr>"

definition speaking :: "js_string \<Rightarrow> app" where
  "speaking text = initial\<lparr>isSpeaking := True, audioContextRef := Some minimalContext,
      audioSourceRef := Some 0, playing := [0], onended := [0], nextHandle := 1,
      trace := [ContextCreate, SpeechRequest text (js ''Kore''),
                SourceCreate 0 \<lparr>channels = [[Num 0]], bufferRate = 24000\<rparr>,
                SourceConnect 0, SourceStart 0]\<rparr>"

section \<open>The loops in closed form\<close>

declare decode_loop.simps [simp del] frame_loop.simps [simp del] channel_loop.simps [simp del]

lemma length_typed_set [simp]: "length (typed_set xs i v) = length xs"
  by (simp add: typed_set_def)

lemma nth_typed_set:
  "j < length xs \<Longrightarrow> typed_set xs i v ! j = (if j = i then v else xs ! j)"
  by (simp add: typed_set_def)

lemma decode_loop_eq:
  "length binaryString = len \<Longrightarrow> length bytes = len \<Longrightarrow> i \<le> len \<Longrightarrow>
   decode_loop binaryString len i bytes = take i bytes @ map ucast (drop i binaryString)"
proof (induction binaryString len i bytes rule: decode_loop.induct)
  case (1 binaryString len i bytes)
  show ?case
  proof (cases "i < len")
    case True
    let ?bytes' = "typed_set bytes i (ucast (binaryString ! i))"
    have step: "decode_loop binaryString len i bytes = decode_loop binaryString len (Suc i) ?bytes'"
      using True "1.prems" by (subst decode_loop.simps) (simp add: js_index_def)
    have "decode_loop binaryString len (Suc i) ?bytes'
            = take (Suc i) ?bytes' @ map ucast (drop (Suc i) binaryString)"
      using True "1.prems" "1.IH" [OF True] by (simp add: js_index_def)
    also have "take (Suc i) ?bytes' = take i bytes @ [ucast (binaryString ! i)]"
      using True "1.prems" by (simp add: typed_set_def take_Suc_conv_app_nth)
    also have "(take i bytes @ [ucast (binaryString ! i)]) @ map ucast (drop (Suc i) binaryString)
            = take i bytes @ map ucast (drop i binaryString)"
      using True "1.prems" by (simp add: Cons_nth_drop_Suc [symmetric])
    finally show ?thesis using step by simp
  next
    case False
    with "1.prems" show ?thesis
      by (subst decode_loop.simps) simp
  qed
qed

lemma decode_eq: "decode base64 = map_sum id (map ucast) (atob base64)"
  by (cases "atob base64") (simp_all add: decode_def decode_loop_eq)

lemma length_int16View: "length (int16View buffer) = length buffer div 2"
  by (induction buffer rule: int16View.induct) simp_all

lemma frame_loop_eq:
  "frame_loop dataInt16 numChannels frameCount channel i channelData =
     map (\<lambda>j. if i \<le> j \<and> real j < frameCount
               then int16_div (js_index dataInt16 (j * numChannels + channel)) 32768
               else channelData ! j) [0..<length channelData]"
proof (induction dataInt16 numChannels frameCount channel i channelData rule: frame_loop.induct)
  case (1 dataInt16 numChannels frameCount channel i channelData)
  show ?case
  proof (cases "real i < frameCount")
    case True
    show ?thesis
      using True "1.IH" [OF True]
      by (subst frame_loop.simps) (auto simp: nth_typed_set intro!: nth_equalityI)
  next
    case False
    then have "\<And>j. i \<le> j \<Longrightarrow> \<not> real j < frameCount"
      by (smt (verit) of_nat_le_iff)
    with False show ?thesis
      by (subst frame_loop.simps) (auto intro!: nth_equalityI)
  qed
qed

lemma channel_loop_eq:
  "channel \<le> numChannels \<Longrightarrow> numChannels \<le> length (channels buffer) \<Longrightarrow>
   channel_loop dataInt16 numChannels frameCount channel buffer =
     Inr (buffer\<lparr>channels :=
       map (\<lambda>c. if channel \<le> c \<and> c < numChannels
                 then frame_loop dataInt16 numChannels frameCount c 0 (channels buffer ! c)
                 else channels buffer ! c) [0..<length (channels buffer)]\<rparr>)"
proof (induction dataInt16 numChannels frameCount channel buffer rule: channel_loop.induct)
  case (1 dataInt16 numChannels frameCount channel buffer)
  show ?case
  proof (cases "channel < numChannels")
    case True
    let ?cd = "channels buffer ! channel"
    let ?b = "buffer\<lparr>channels := (channels buffer)
                [channel := frame_loop dataInt16 numChannels frameCount channel 0 ?cd]\<rparr>"
    have g: "getChannelData buffer channel = Inr ?cd"
      using True "1.prems" by (simp add: getChannelData_def)
    have "channel_loop dataInt16 numChannels frameCount channel buffer
            = channel_loop dataInt16 numChannels frameCount (Suc channel) ?b"
      using True g by (subst channel_loop.simps) simp
    also have "\<dots> = Inr (?b\<lparr>channels :=
       map (\<lambda>c. if Suc channel \<le> c \<and> c < numChannels
                 then frame_loop dataInt16 numChannels frameCount c 0 (channels ?b ! c)
                 else channels ?b ! c) [0..<length (channels ?b)]\<rparr>)"
      using True "1.prems" by (intro "1.IH" [OF True g]) simp_all
    also have "\<dots> = Inr (buffer\<lparr>channels :=
       map (\<lambda>c. if channel \<le> c \<and> c < numChannels
                 then frame_loop dataInt16 numChannels frameCount c 0 (channels buffer ! c)
                 else channels buffer ! c) [0..<length (channels buffer)]\<rparr>)"
      using True "1.prems" by (auto simp: nth_list_update intro!: nth_equalityI)
    finally show ?thesis .
  next
    case False
    with "1.prems" have eq: "channel = numChannels" by simp
    have "map (\<lambda>c. if channel \<le> c \<and> c < numChannels
                 then frame_loop dataInt16 numChannels frameCount c 0 (channels buffer ! c)
                 else channels buffer ! c) [0..<length (channels buffer)] = channels buffer"
      using eq by (auto intro!: nth_equalityI)
    then show ?thesis
      using eq by (subst channel_loop.simps) simp
  qed
qed

lemma channel_loop_missing_channel:
  "channel \<le> length (channels buffer) \<Longrightarrow> length (channels buffer) < numChannels \<Longrightarrow>
   channel_loop dataInt16 numChannels frameCount channel buffer = Inl (DOMException ''IndexSizeError'')"
proof (induction dataInt16 numChannels frameCount channel buffer rule: channel_loop.induct)
  case (1 dataInt16 numChannels frameCount channel buffer)
  show ?case
  proof (cases "channel < length (channels buffer)")
    case True
    let ?cd = "channels buffer ! channel"
    have lt: "channel < numChannels" using True "1.prems" by simp
    have g: "getChannelData buffer channel = Inr ?cd"
      using True by (simp add: getChannelData_def)
    show ?thesis
      using True "1.prems" "1.IH" [OF lt g]
      by (subst channel_loop.simps) (simp add: g lt)
  next
    case False
    with "1.prems" show ?thesis
      by (subst channel_loop.simps) (simp add: getChannelData_def)
  qed
qed

lemma int16_div_range:
  "\<exists>v. int16_div (Some x) 32768 = Num v \<and> - 1 \<le> v \<and> v < 1"
proof -
  have "- 32768 \<le> sint x" "sint x < 32768"
    using sint_ge [of x] sint_lt [of x] by simp_all
  then have "real_of_int (- 32768) \<le> real_of_int (sint x)"
    and "real_of_int (sint x) < real_of_int 32768"
    by (simp_all only: of_int_le_iff of_int_less_iff)
  then have "- 1 \<le> real_of_int (sint x) / 32768" "real_of_int (sint x) / 32768 < 1"
    by simp_all
  then show ?thesis by (simp only: int16_div.simps jsnum.inject simp_thms)
qed

lemma frame_index_in_range:
  assumes "j < len div C" "c < C"
  shows "j * C + c < (len::nat)"
proof -
  have "j * C + c < Suc j * C" using assms by simp
  also have "\<dots> \<le> (len div C) * C" using assms by (intro mult_le_mono1) simp
  also have "\<dots> \<le> len" by simp
  finally show ?thesis .
qed

lemma frame_before_count:
  assumes "j < len div C" "0 < C"
  shows "real j < real len / real C"
proof -
  have "j * C + 0 < len" using assms by (intro frame_index_in_range) simp_all
  then have "real (j * C) < real len" by (simp only: of_nat_less_iff add_0_right)
  then show ?thesis using assms by (simp add: pos_less_divide_eq)
qed

lemma toUnsignedLong_frames:
  "toUnsignedLong (real len / real C) = (len div C) mod 2 ^ 32"
  by (simp add: toUnsignedLong_def floor_divide_of_nat_eq nat_div_distrib flip: of_nat_div)

text \<open>What the two loops write into the buffer that \<open>createBuffer\<close> returned.\<close>

lemma decodeAudioData_eq:
  assumes "Int16Array data = Inr samples"
    and "0 < C" "C < 2 ^ 32" "C \<le> maxChannels ctx"
    and "minSampleRate ctx \<le> rate" "rate \<le> maxSampleRate ctx"
    and "0 < (length samples div C) mod 2 ^ 32"
  shows "decodeAudioData data ctx rate C =
           Inr \<lparr>channels =
                  map (\<lambda>c. map (\<lambda>j. int16_div (Some (samples ! (j * C + c))) 32768)
                              [0..<(length samples div C) mod 2 ^ 32]) [0..<C],
                bufferRate = rate\<rparr>"
proof -
  let ?fc = "real (length samples) / real C"
  let ?l = "(length samples div C) mod 2 ^ 32"
  let ?b = "\<lparr>channels = replicate C (replicate ?l (Num 0)), bufferRate = rate\<rparr>"
  have cb: "createBuffer ctx C ?fc rate = Inr ?b"
    using assms by (simp add: createBuffer_def toUnsignedLong_frames Let_def)
  have "channel_loop samples C ?fc 0 ?b =
          Inr (?b\<lparr>channels :=
            map (\<lambda>c. if 0 \<le> c \<and> c < C
                      then frame_loop samples C ?fc c 0 (channels ?b ! c)
                      else channels ?b ! c) [0..<length (channels ?b)]\<rparr>)"
    by (rule channel_loop_eq) simp_all
  also have "\<dots> = Inr \<lparr>channels =
                  map (\<lambda>c. map (\<lambda>j. int16_div (Some (samples ! (j * C + c))) 32768)
                              [0..<?l]) [0..<C],
                bufferRate = rate\<rparr>"
  proof -
    have "frame_loop samples C ?fc c 0 (replicate ?l (Num 0)) =
            map (\<lambda>j. int16_div (Some (samples ! (j * C + c))) 32768) [0..<?l]"
      if c: "c < C" for c
    proof -
      have le: "?l \<le> length samples div C"
        by (rule mod_less_eq_dividend)
      have "real j < ?fc" if "j < ?l" for j
        using that le \<open>0 < C\<close> by (intro frame_before_count) simp_all
      moreover have "j * C + c < length samples" if "j < ?l" for j
        using that le c by (intro frame_index_in_range) simp_all
      ultimately show ?thesis
        unfolding frame_loop_eq by (auto simp: js_index_def simp del: int16_div.simps)
    qed
    then show ?thesis by (auto intro!: nth_equalityI)
  qed
  finally show ?thesis
    using assms(1) cb by (simp add: decodeAudioData_def)
qed

lemma decodeAudioData_Inr_channels:
  assumes "decodeAudioData data ctx rate C = Inr buffer"
  shows "\<exists>samples l. channels buffer =
           map (\<lambda>c. map (\<lambda>j. int16_div (Some (samples ! (j * C + c))) 32768) [0..<l]) [0..<C]"
proof -
  obtain samples where s: "Int16Array data = Inr samples"
    using assms by (cases "Int16Array data") (simp_all add: decodeAudioData_def)
  let ?fc = "real (length samples) / real C"
  obtain b where b: "createBuffer ctx C ?fc rate = Inr b"
    using assms s by (cases "createBuffer ctx C ?fc rate") (simp_all add: decodeAudioData_def)
  have loop: "channel_loop samples C ?fc 0 b = Inr buffer"
    using assms s b by (simp add: decodeAudioData_def)
  have ok: "C mod 2 ^ 32 \<noteq> 0" "C mod 2 ^ 32 \<le> maxChannels ctx"
    "toUnsignedLong ?fc \<noteq> 0" "minSampleRate ctx \<le> rate" "rate \<le> maxSampleRate ctx"
    and len: "length (channels b) = C mod 2 ^ 32"
    using b by (auto simp: createBuffer_def Let_def split: if_splits)
  have "\<not> length (channels b) < C"
    using channel_loop_missing_channel [of 0 b C samples ?fc] loop by auto
  then have "C \<le> C mod 2 ^ 32" using len by simp
  moreover have "C mod 2 ^ 32 \<le> C" by (rule mod_less_eq_dividend)
  ultimately have eq: "C mod 2 ^ 32 = C" by simp
  then have small: "C < 2 ^ 32"
    by (metis mod_less_divisor zero_less_numeral zero_less_power)
  have "decodeAudioData data ctx rate C =
           Inr \<lparr>channels =
                  map (\<lambda>c. map (\<lambda>j. int16_div (Some (samples ! (j * C + c))) 32768)
                              [0..<(length samples div C) mod 2 ^ 32]) [0..<C],
                bufferRate = rate\<rparr>"
    using s ok eq small by (intro decodeAudioData_eq) (simp_all add: toUnsignedLong_frames)
  with assms have "channels buffer =
      map (\<lambda>c. map (\<lambda>j. int16_div (Some (samples ! (j * C + c))) 32768)
                  [0..<(length samples div C) mod 2 ^ 32]) [0..<C]"
    by auto
  then show ?thesis by blast
qed

section \<open>Values that the proofs below compute with\<close>

lemmas base64_defs = js_def atob_def forgivingBase64Decode_def stripPadding_def
  isAsciiWhitespace_def base64Value_def

lemma decode_two_bytes: "decode (js ''AAA='') = Inr [0, 0]"
  by (simp add: decode_eq base64_defs)

lemma decode_one_byte: "decode (js ''AA=='') = Inr [0]"
  by (simp add: decode_eq base64_defs)

lemma decodeAudioData_one_frame:
  "decodeAudioData [0, 0] minimalContext 24000 1 =
     Inr \<lparr>channels = [[Num 0]], bufferRate = 24000\<rparr>"
proof -
  have "Int16Array [0, 0] = Inr [0]"
    by (simp add: Int16Array_def)
  from decodeAudioData_eq [OF this, of 1 minimalContext 24000] show ?thesis
    by (simp add: minimalContext_def)
qed

section \<open>The audio buffer\<close>

text \<open>
  Claim C1, as the code has it. Let the byte buffer be one that \<open>Int16Array\<close> views as
  \<open>len\<close> 16-bit samples, and let the context support the channel count \<open>C\<close>,
  with \<open>1 \<le> C < 2 ^ 32\<close>, and the sample rate. When
  \<open>1 \<le> floor(len / C) < 2 ^ 32\<close>, \<open>decodeAudioData\<close>
  returns a buffer of \<open>C\<close> channels, each of length exactly \<open>floor(len / C)\<close>, and
  the value at frame \<open>i\<close> of channel \<open>c\<close> is the interleaved sample
  \<open>i * C + c\<close> divided by \<open>32768\<close>. When \<open>floor(len / C) = 0\<close>, as for the empty
  buffer, \<open>createBuffer\<close> throws a \<open>NotSupportedError\<close> and there is no buffer.
\<close>

theorem decodeAudioData_deinterleaves:
  assumes "Int16Array data = Inr samples"
  shows "(1 \<le> C \<and> C < 2 ^ 32 \<and> C \<le> maxChannels ctx \<and>
          minSampleRate ctx \<le> rate \<and> rate \<le> maxSampleRate ctx \<and>
          1 \<le> length samples div C \<and> length samples div C < 2 ^ 32 \<longrightarrow>
          (\<exists>buffer. decodeAudioData data ctx rate C = Inr buffer \<and>
             length (channels buffer) = C \<and>
             (\<forall>c<C. length (channels buffer ! c) = length samples div C \<and>
                (\<forall>i < length samples div C.
                   channels buffer ! c ! i =
                     Num (real_of_int (sint (samples ! (i * C + c))) / 32768))))) \<and>
         (length samples div C = 0 \<longrightarrow>
          decodeAudioData data ctx rate C = Inl (DOMException ''NotSupportedError''))"
proof (intro conjI impI)
  assume ok: "1 \<le> C \<and> C < 2 ^ 32 \<and> C \<le> maxChannels ctx \<and>
          minSampleRate ctx \<le> rate \<and> rate \<le> maxSampleRate ctx \<and>
          1 \<le> length samples div C \<and> length samples div C < 2 ^ 32"
  then have l: "(length samples div C) mod 2 ^ 32 = length samples div C"
    by simp
  have "decodeAudioData data ctx rate C =
           Inr \<lparr>channels =
                  map (\<lambda>c. map (\<lambda>j. int16_div (Some (samples ! (j * C + c))) 32768)
                              [0..<length samples div C]) [0..<C],
                bufferRate = rate\<rparr>"
    using assms ok decodeAudioData_eq [of data samples C ctx rate] by (simp add: l)
  then show "\<exists>buffer. decodeAudioData data ctx rate C = Inr buffer \<and>
             length (channels buffer) = C \<and>
             (\<forall>c<C. length (channels buffer ! c) = length samples div C \<and>
                (\<forall>i < length samples div C.
                   channels buffer ! c ! i =
                     Num (real_of_int (sint (samples ! (i * C + c))) / 32768)))"
    by auto
next
  assume "length samples div C = 0"
  then show "decodeAudioData data ctx rate C = Inl (DOMException ''NotSupportedError'')"
    using assms by (simp add: decodeAudioData_def createBuffer_def toUnsignedLong_frames)
qed

theorem decodeAudioData_deinterleaves_witness:
  "Int16Array [1, 0, 2, 0, 3, 0, 4, 0, 5, 0] = Inr [1, 2, 3, 4, 5] \<and>
   (\<exists>buffer. decodeAudioData [1, 0, 2, 0, 3, 0, 4, 0, 5, 0] minimalContext 24000 2 = Inr buffer \<and>
      length (channels buffer) = 2 \<and>
      length (channels buffer ! 0) = 2 \<and> length (channels buffer ! 1) = 2 \<and>
      channels buffer ! 0 ! 0 = Num (1 / 32768) \<and> channels buffer ! 0 ! 1 = Num (3 / 32768) \<and>
      channels buffer ! 1 ! 0 = Num (2 / 32768) \<and> channels buffer ! 1 ! 1 = Num (4 / 32768)) \<and>
   Int16Array [] = Inr [] \<and> length ([] :: 16 word list) div 1 = 0 \<and>
   decodeAudioData [] minimalContext 24000 1 = Inl (DOMException ''NotSupportedError'')"
proof -
  have h: "Int16Array [1, 0, 2, 0, 3, 0, 4, 0, 5, 0] = Inr [1, 2, 3, 4, 5]"
    by (simp add: Int16Array_def)
  obtain buffer where b: "decodeAudioData [1, 0, 2, 0, 3, 0, 4, 0, 5, 0] minimalContext 24000 2 = Inr buffer"
    "length (channels buffer) = 2"
    and c: "\<forall>c<2. length (channels buffer ! c) = 2 \<and>
          (\<forall>i<2. channels buffer ! c ! i =
             Num (real_of_int (sint (([1, 2, 3, 4, 5] :: 16 word list) ! (i * 2 + c))) / 32768))"
    using decodeAudioData_deinterleaves [OF h, of 2 minimalContext 24000]
    by (auto simp: minimalContext_def)
  have e: "Int16Array [] = Inr []"
    by (simp add: Int16Array_def)
  have z: "decodeAudioData [] minimalContext 24000 1 = Inl (DOMException ''NotSupportedError'')"
    using decodeAudioData_deinterleaves [OF e, of 1 minimalContext 24000] by simp
  have c0: "(0::nat) < 2" and c1: "(1::nat) < 2" by simp_all
  from c [rule_format, OF c0] c [rule_format, OF c1]
  have "length (channels buffer ! 0) = 2 \<and> length (channels buffer ! 1) = 2 \<and>
      channels buffer ! 0 ! 0 = Num (1 / 32768) \<and> channels buffer ! 0 ! 1 = Num (3 / 32768) \<and>
      channels buffer ! 1 ! 0 = Num (2 / 32768) \<and> channels buffer ! 1 ! 1 = Num (4 / 32768)"
    by (simp add: nth_Cons')
  with h b e z show ?thesis by auto
qed

text \<open>
  The claim as the specification states it, for every buffer, fails on the empty
  buffer, and on one sample for two channels: no channel array of length zero is
  produced.
\<close>

theorem decodeAudioData_empty_counterexample:
  "Int16Array [] = Inr [] \<and>
   decodeAudioData [] minimalContext 24000 1 = Inl (DOMException ''NotSupportedError'') \<and>
   Int16Array [1, 0] = Inr [1] \<and>
   decodeAudioData [1, 0] minimalContext 24000 2 = Inl (DOMException ''NotSupportedError'')"
  by (simp add: decodeAudioData_def Int16Array_def createBuffer_def toUnsignedLong_def
      minimalContext_def)

text \<open>
  Claim C2, as the code has it. \<open>decode\<close> returns every byte that \<open>atob\<close>
  decodes. A buffer of even byte length is viewed as half as many samples. For a
  buffer of odd byte length no byte is dropped: \<open>new Int16Array\<close> throws a
  \<open>RangeError\<close>, \<open>decodeAudioData\<close> throws it on, and the \<open>catch\<close> of
  \<open>handleListen\<close> reports it as it reports every other failure.
\<close>

theorem odd_length_is_an_error:
  "(\<forall>binaryString. atob base64 = Inr binaryString \<longrightarrow>
       decode base64 = Inr (map ucast binaryString)) \<and>
   (even (length bytes) \<longrightarrow>
      (\<exists>samples. Int16Array bytes = Inr samples \<and> length samples = length bytes div 2)) \<and>
   (odd (length bytes) \<longrightarrow>
      Int16Array bytes = Inl RangeError \<and>
      decodeAudioData bytes ctx rate C = Inl RangeError) \<and>
   (odd (length bytes) \<and> base64 \<noteq> [] \<and> decode base64 = Inr bytes \<and>
    listenCall s = Some (AwaitSpeech ctx) \<longrightarrow>
      speechSettled (Resolved (Some base64)) s = listenFailed RangeError s)"
proof -
  have "speechSettled (Resolved (Some base64)) s = listenFailed RangeError s"
    if "odd (length bytes) \<and> base64 \<noteq> [] \<and> decode base64 = Inr bytes \<and>
        listenCall s = Some (AwaitSpeech ctx)"
  proof -
    have "decodeAudioData bytes ctx 24000 1 = Inl RangeError"
      using that by (simp add: decodeAudioData_def Int16Array_def even_iff_mod_2_eq_zero)
    then have "fetchAudioBuffer (Resolved (Some base64)) ctx = ([], Inl RangeError)"
      using that by (simp add: fetchAudioBuffer_def getSpokenReflection_def del: One_nat_def)
    then show ?thesis
      using that by (simp add: speechSettled_def)
  qed
  then show ?thesis
    by (simp add: decode_eq Int16Array_def length_int16View decodeAudioData_def
        even_iff_mod_2_eq_zero)
qed

theorem odd_length_is_an_error_witness:
  "atob (js ''AAA='') = Inr [0, 0] \<and> decode (js ''AAA='') = Inr [0, 0] \<and>
   even (length [0 :: 8 word, 0]) \<and>
   (\<exists>samples. Int16Array [0, 0] = Inr samples \<and> length samples = length [0 :: 8 word, 0] div 2) \<and>
   odd (length [0 :: 8 word]) \<and> js ''AA=='' \<noteq> [] \<and> decode (js ''AA=='') = Inr [0] \<and>
   listenCall (fetching (js ''a'')) = Some (AwaitSpeech minimalContext) \<and>
   Int16Array [0] = Inl RangeError \<and>
   decodeAudioData [0] minimalContext 24000 1 = Inl RangeError \<and>
   speechSettled (Resolved (Some (js ''AA==''))) (fetching (js ''a'')) =
     listenFailed RangeError (fetching (js ''a''))"
proof -
  have a: "atob (js ''AAA='') = Inr [0, 0]"
    by (simp add: base64_defs)
  have e: "even (length [0 :: 8 word, 0])" and o: "odd (length [0 :: 8 word])"
    and n: "js ''AA=='' \<noteq> []"
    and l: "listenCall (fetching (js ''a'')) = Some (AwaitSpeech minimalContext)"
    by (simp_all add: js_def fetching_def initial_def)
  from odd_length_is_an_error [of "js ''AAA=''" "[0, 0]" minimalContext 24000 1 "fetching (js ''a'')"]
    odd_length_is_an_error [of "js ''AA==''" "[0]" minimalContext 24000 1 "fetching (js ''a'')"]
    a e o n l decode_one_byte
  show ?thesis by simp
qed

text \<open>
  The claim as the specification states it fails on the base64 text \<open>AA==\<close>, which
  decodes to one byte.
\<close>

theorem odd_length_counterexample:
  "decode (js ''AA=='') = Inr [0] \<and>
   Int16Array [0] = Inl RangeError \<and>
   decodeAudioData [0] minimalContext 24000 1 = Inl RangeError"
  by (simp add: decode_one_byte decodeAudioData_def Int16Array_def)

text \<open>
  Claim C4. For every 16-bit sample \<open>x\<close> the quotient \<open>x / 32768\<close> is a number in
  \<open>[-1, 1)\<close>, and so is every value of every channel of every buffer that
  \<open>decodeAudioData\<close> returns.
\<close>

theorem normalized_sample_range:
  "(\<exists>v. int16_div (Some x) 32768 = Num v \<and> - 1 \<le> v \<and> v < 1) \<and>
   (decodeAudioData data ctx rate C = Inr buffer \<longrightarrow>
      (\<forall>channelData \<in> set (channels buffer). \<forall>y \<in> set channelData.
         \<exists>v. y = Num v \<and> - 1 \<le> v \<and> v < 1))"
proof (intro conjI impI ballI)
  show "\<exists>v. int16_div (Some x) 32768 = Num v \<and> - 1 \<le> v \<and> v < 1"
    by (rule int16_div_range)
next
  fix channelData y
  assume "decodeAudioData data ctx rate C = Inr buffer"
    and cd: "channelData \<in> set (channels buffer)" and y: "y \<in> set channelData"
  then obtain samples l where
    "channels buffer =
       map (\<lambda>c. map (\<lambda>j. int16_div (Some (samples ! (j * C + c))) 32768) [0..<l]) [0..<C]"
    using decodeAudioData_Inr_channels by blast
  with cd y obtain z where "y = int16_div (Some z) 32768"
    by auto
  then show "\<exists>v. y = Num v \<and> - 1 \<le> v \<and> v < 1"
    using int16_div_range [of z] by simp
qed

theorem normalized_sample_range_witness:
  "decodeAudioData [0, 128, 255, 127] minimalContext 24000 1 =
     Inr \<lparr>channels = [[Num (- 1), Num (32767 / 32768)]], bufferRate = 24000\<rparr> \<and>
   (\<exists>v. Num (32767 / 32768) = Num v \<and> - 1 \<le> v \<and> v < 1) \<and>
   (\<exists>v. int16_div (Some 32768) 32768 = Num v \<and> - 1 \<le> v \<and> v < 1)"
proof -
  have "Int16Array [0, 128, 255, 127] = Inr [32768, 32767]"
    by (simp add: Int16Array_def)
  from decodeAudioData_eq [OF this, of 1 minimalContext 24000]
  have d: "decodeAudioData [0, 128, 255, 127] minimalContext 24000 1 =
     Inr \<lparr>channels = [[Num (- 1), Num (32767 / 32768)]], bufferRate = 24000\<rparr>"
    by (simp add: minimalContext_def upt_rec)
  from normalized_sample_range
    [of 32768 "[0, 128, 255, 127]" minimalContext 24000 1
      "\<lparr>channels = [[Num (- 1), Num (32767 / 32768)]], bufferRate = 24000\<rparr>"] d
  show ?thesis by simp
qed

section \<open>What holds of the component in every state\<close>

lemma stopPlayback_inv: "single_source s \<Longrightarrow> single_source (stopPlayback s)"
  by (auto simp: single_source_def stopPlayback_def split: option.splits)

lemma handleListen_inv: "single_source s \<Longrightarrow> single_source (handleListen text w s)"
  by (auto simp: single_source_def handleListen_def stopPlayback_def listenFailed_def
      requestSpeech_def Let_def split: option.splits sum.splits)

lemma resumeSettled_inv: "single_source s \<Longrightarrow> single_source (resumeSettled r s)"
  by (auto simp: single_source_def resumeSettled_def listenFailed_def requestSpeech_def
      split: option.splits listen_await.splits settled.splits)

lemma speechSettled_inv: "single_source s \<Longrightarrow> single_source (speechSettled r s)"
  by (auto simp: single_source_def speechSettled_def listenFailed_def startSource_def Let_def
      split: option.splits listen_await.splits prod.splits sum.splits)

lemma sourceEnded_inv: "single_source s \<Longrightarrow> single_source (sourceEnded h s)"
  by (auto simp: single_source_def sourceEnded_def Let_def split: option.splits if_splits)

lemma handleSubmit_inv: "single_source s \<Longrightarrow> single_source (handleSubmit s)"
  by (auto simp: single_source_def handleSubmit_def stopPlayback_def Let_def split: option.splits)

lemma reflectionSettled_inv: "single_source s \<Longrightarrow> single_source (reflectionSettled r s)"
  by (auto simp: single_source_def reflectionSettled_def Let_def
      split: option.splits prod.splits sum.splits)

lemma typed_inv: "single_source (s\<lparr>userInput := v\<rparr>) = single_source s"
  by (simp add: single_source_def)

lemma voice_inv: "single_source (s\<lparr>selectedVoice := v\<rparr>) = single_source s"
  by (simp add: single_source_def)

lemma step_inv: "single_source s \<Longrightarrow> single_source (step e s)"
  by (cases e)
     (simp_all add: handleListen_inv resumeSettled_inv speechSettled_inv sourceEnded_inv
        handleSubmit_inv reflectionSettled_inv stopPlayback_inv typed_inv voice_inv)

lemma run_snoc: "run (es @ [e]) = step e (run es)"
  by (simp add: run_def)

lemma run_inv: "single_source (run es)"
proof (induction es rule: rev_induct)
  case Nil
  show ?case by (simp add: run_def initial_def single_source_def)
next
  case (snoc e es)
  then show ?case by (simp add: run_snoc step_inv)
qed

lemma playing_source:
  assumes "isSpeaking (run es)"
  shows "\<exists>source. audioSourceRef (run es) = Some source \<and> playing (run es) = [source]
           \<and> \<not> isFetchingAudio (run es)"
  using assms run_inv [of es] by (auto simp: single_source_def)

lemma run_fetching: "run [Listen text readyPlatform] = fetching text"
  by (simp add: run_def fetching_def initial_def handleListen_def readyPlatform_def
      requestSpeech_def Let_def)

lemma run_speaking:
  "run [Listen text readyPlatform, SpeechSettled (Resolved (Some (js ''AAA='')))] = speaking text"
proof -
  have "js ''AAA='' \<noteq> []" by (simp add: js_def)
  then have "fetchAudioBuffer (Resolved (Some (js ''AAA=''))) minimalContext =
      ([], Inr \<lparr>channels = [[Num 0]], bufferRate = 24000\<rparr>)"
    by (simp add: fetchAudioBuffer_def getSpokenReflection_def decode_two_bytes
        decodeAudioData_one_frame del: One_nat_def)
  then have "speechSettled (Resolved (Some (js ''AAA=''))) (fetching text) = speaking text"
    by (simp add: speechSettled_def fetching_def speaking_def initial_def startSource_def Let_def)
  then show ?thesis
    using run_fetching [of "text"] by (simp add: run_def)
qed

section \<open>The playback controller\<close>

text \<open>
  Claim C3. In every state of the component in which \<open>isSpeaking\<close> is set, a call of
  \<open>handleListen\<close>, with any text, stops and disconnects the source that plays and
  does nothing else: the controller is \<open>Idle\<close> afterwards, no source plays, and the
  trace of the call holds no request for speech.
\<close>

theorem handleListen_while_speaking_stops:
  assumes "isSpeaking (run es)"
  shows "let s = run es; s' = handleListen text w s in
           controllerState s' = Idle \<and> playing s' = [] \<and> audioSourceRef s' = None \<and>
           listenCall s' = listenCall s \<and>
           (\<exists>source. playing s = [source] \<and>
              trace s' = trace s @ [SourceStop source, SourceDisconnect source])"
proof -
  obtain source where src: "audioSourceRef (run es) = Some source" "playing (run es) = [source]"
    and nf: "\<not> isFetchingAudio (run es)"
    using playing_source [OF assms] by blast
  have "handleListen text w (run es) = stopPlayback (run es)"
    using assms by (simp add: handleListen_def)
  then show ?thesis
    using src nf by (simp add: stopPlayback_def controllerState_def)
qed

theorem handleListen_while_speaking_stops_witness:
  "isSpeaking (run [Listen (js ''a'') readyPlatform, SpeechSettled (Resolved (Some (js ''AAA='')))]) \<and>
   controllerState
     (handleListen (js ''b'') readyPlatform
        (run [Listen (js ''a'') readyPlatform, SpeechSettled (Resolved (Some (js ''AAA='')))])) = Idle \<and>
   trace
     (handleListen (js ''b'') readyPlatform
        (run [Listen (js ''a'') readyPlatform, SpeechSettled (Resolved (Some (js ''AAA='')))])) =
     trace (run [Listen (js ''a'') readyPlatform, SpeechSettled (Resolved (Some (js ''AAA='')))])
       @ [SourceStop 0, SourceDisconnect 0]"
proof -
  let ?es = "[Listen (js ''a'') readyPlatform, SpeechSettled (Resolved (Some (js ''AAA='')))]"
  have h: "isSpeaking (run ?es)"
    by (simp add: run_speaking speaking_def)
  have p: "playing (run ?es) = [0]"
    by (simp add: run_speaking speaking_def)
  from handleListen_while_speaking_stops [OF h, of "js ''b''" readyPlatform] h p
  show ?thesis by (simp add: Let_def)
qed

text \<open>
  Claim C5. In every state of the component at most one source plays. When an event
  makes a source play that did not play before, no source played before the event and
  the ref was empty: the one before had been stopped or had ended, and the new source
  is the only one that plays.
\<close>

theorem one_playback_handle:
  "length (playing (run es)) \<le> 1 \<and>
   (\<forall>h. h \<in> set (playing (step e (run es))) \<and> h \<notin> set (playing (run es)) \<longrightarrow>
      playing (run es) = [] \<and> audioSourceRef (run es) = None \<and>
      playing (step e (run es)) = [h])"
proof -
  have one_before: "length (playing (run es)) \<le> 1"
    using run_inv [of es] by (auto simp: single_source_def split: option.splits)
  have "playing (run es) = [] \<and> audioSourceRef (run es) = None \<and>
      playing (step e (run es)) = [h]"
    if new: "h \<in> set (playing (step e (run es))) \<and> h \<notin> set (playing (run es))" for h
  proof -
  have after: "single_source (run (es @ [e]))"
    by (rule run_inv)
  have one: "playing (step e (run es)) = [h]"
    using new after by (auto simp: run_snoc single_source_def split: option.splits)
  have "playing (run es) = [] \<and> audioSourceRef (run es) = None"
  proof (cases "audioSourceRef (run es)")
    case None
    then show ?thesis using run_inv [of es] by (simp add: single_source_def)
  next
    case (Some g)
    then have g: "playing (run es) = [g]" "isSpeaking (run es)" "listenCall (run es) = None"
      using run_inv [of es] by (auto simp: single_source_def)
    have "set (playing (step e (run es))) \<subseteq> {g}"
      using g Some
      by (cases e)
         (auto simp: handleListen_def stopPlayback_def resumeSettled_def speechSettled_def
            sourceEnded_def handleSubmit_def reflectionSettled_def Let_def
            split: if_splits prod.splits sum.splits)
    with new g show ?thesis by auto
  qed
  then show ?thesis
    using one by simp
  qed
  with one_before show ?thesis by blast
qed

theorem one_playback_handle_witness:
  "0 \<in> set (playing (step (SpeechSettled (Resolved (Some (js ''AAA=''))))
                      (run [Listen (js ''a'') readyPlatform]))) \<and>
   0 \<notin> set (playing (run [Listen (js ''a'') readyPlatform])) \<and>
   playing (run [Listen (js ''a'') readyPlatform]) = [] \<and>
   audioSourceRef (run [Listen (js ''a'') readyPlatform]) = None \<and>
   playing (step (SpeechSettled (Resolved (Some (js ''AAA=''))))
              (run [Listen (js ''a'') readyPlatform])) = [0] \<and>
   length (playing (run [Listen (js ''a'') readyPlatform])) \<le> 1"
proof -
  let ?es = "[Listen (js ''a'') readyPlatform]"
  let ?e = "SpeechSettled (Resolved (Some (js ''AAA='')))"
  have "step ?e (run ?es) = run (?es @ [?e])"
    by (simp only: run_snoc)
  then have after: "step ?e (run ?es) = speaking (js ''a'')"
    by (simp add: run_speaking)
  have "playing (speaking (js ''a'')) = [0]"
    by (simp add: speaking_def initial_def)
  then have "playing (step ?e (run ?es)) = [0]"
    by (simp only: after)
  moreover have "playing (run ?es) = []"
    by (simp add: run_fetching fetching_def initial_def)
  ultimately have new: "0 \<in> set (playing (step ?e (run ?es))) \<and> 0 \<notin> set (playing (run ?es))"
    by (simp only: list.set) simp
  from one_playback_handle [of ?es ?e] new show ?thesis
    by blast
qed

text \<open>
  Claim C6. In every state of the component in which \<open>isSpeaking\<close> is set, a call of
  \<open>handleSubmit\<close> that passes its guard (the trimmed input is not empty and no
  request is loading) stops and disconnects the source that plays, and only then
  sends the request for a reflection.
\<close>

theorem handleSubmit_stops_before_request:
  assumes "isSpeaking (run es)" "trim (userInput (run es)) \<noteq> []" "\<not> isLoading (run es)"
  shows "let s = run es; s' = handleSubmit s in
           \<exists>source. playing s = [source] \<and>
             trace s' = trace s @ [SourceStop source, SourceDisconnect source,
                                   GenerateRequest (userInput s)] \<and>
             playing s' = [] \<and> audioSourceRef s' = None \<and> \<not> isSpeaking s'"
proof -
  obtain source where "audioSourceRef (run es) = Some source" "playing (run es) = [source]"
    using playing_source [OF assms(1)] by blast
  then show ?thesis
    using assms by (simp add: handleSubmit_def stopPlayback_def Let_def)
qed

theorem handleSubmit_stops_before_request_witness:
  "isSpeaking (run [Listen (js ''a'') readyPlatform,
                    SpeechSettled (Resolved (Some (js ''AAA=''))), Typed (js ''hi'')]) \<and>
   trim (userInput (run [Listen (js ''a'') readyPlatform,
                    SpeechSettled (Resolved (Some (js ''AAA=''))), Typed (js ''hi'')])) \<noteq> [] \<and>
   \<not> isLoading (run [Listen (js ''a'') readyPlatform,
                    SpeechSettled (Resolved (Some (js ''AAA=''))), Typed (js ''hi'')]) \<and>
   trace (handleSubmit (run [Listen (js ''a'') readyPlatform,
                    SpeechSettled (Resolved (Some (js ''AAA=''))), Typed (js ''hi'')])) =
     trace (run [Listen (js ''a'') readyPlatform,
                    SpeechSettled (Resolved (Some (js ''AAA=''))), Typed (js ''hi'')])
       @ [SourceStop 0, SourceDisconnect 0, GenerateRequest (js ''hi'')]"
proof -
  let ?es = "[Listen (js ''a'') readyPlatform,
              SpeechSettled (Resolved (Some (js ''AAA=''))), Typed (js ''hi'')]"
  have "run ?es = step (Typed (js ''hi''))
      (run [Listen (js ''a'') readyPlatform, SpeechSettled (Resolved (Some (js ''AAA='')))])"
    by (simp add: run_def)
  then have r: "run ?es = (speaking (js ''a''))\<lparr>userInput := js ''hi''\<rparr>"
    by (simp add: run_speaking)
  have h1: "isSpeaking (run ?es)" and h3: "\<not> isLoading (run ?es)"
    and p: "playing (run ?es) = [0]" and u: "userInput (run ?es) = js ''hi''"
    by (simp_all add: r speaking_def initial_def)
  have h2: "trim (userInput (run ?es)) \<noteq> []"
    unfolding u by (simp add: trim_def js_def isWhiteSpace_def)
  from handleSubmit_stops_before_request [OF h1 h2 h3] h1 h2 h3 p u
  show ?thesis by (simp add: Let_def)
qed

text \<open>
  Claim C7. When the response to the request for speech has no audio payload (none,
  or the empty string), \<open>getSpokenReflection\<close> throws the error that it throws when
  the transport fails. The call of \<open>handleListen\<close> that waited for the response
  ends with the error message set and the controller \<open>Idle\<close>: \<open>isSpeaking\<close> was
  not set and is not set, no source node is made, none plays, and the trace of the call
  holds the two logged errors only.
\<close>

theorem missing_audio_fails:
  assumes "payload = None \<or> payload = Some []"
    and "listenCall (run es) = Some (AwaitSpeech audioContext)"
  shows "let s = run es; s' = speechSettled (Resolved payload) s in
           snd (getSpokenReflection (Resolved payload)) =
             Inl (Error ''Failed to get spoken reflection from Gemini API.'') \<and>
           snd (getSpokenReflection (Rejected reason)) =
             snd (getSpokenReflection (Resolved payload)) \<and>
           \<not> isSpeaking s \<and> \<not> isSpeaking s' \<and> controllerState s' = Idle \<and>
           error s' = Some speakError \<and>
           playing s' = [] \<and> audioSourceRef s' = None \<and> nextHandle s' = nextHandle s \<and>
           trace s' = trace s @ [ConsoleError (Error ''No audio data returned from API.''),
             ConsoleError (Error ''Failed to get spoken reflection from Gemini API.'')]"
proof -
  have idle: "\<not> isSpeaking (run es)" "playing (run es) = []" "audioSourceRef (run es) = None"
    using assms(2) run_inv [of es] by (auto simp: single_source_def)
  have "getSpokenReflection (Resolved payload) =
          ([Error ''No audio data returned from API.''],
           Inl (Error ''Failed to get spoken reflection from Gemini API.''))"
    using assms(1) by (auto simp: getSpokenReflection_def)
  then show ?thesis
    using assms(2) idle
    by (simp add: speechSettled_def fetchAudioBuffer_def listenFailed_def controllerState_def
        getSpokenReflection_def Let_def)
qed

theorem missing_audio_fails_witness:
  "listenCall (run [Listen (js ''a'') readyPlatform]) = Some (AwaitSpeech minimalContext) \<and>
   controllerState (speechSettled (Resolved None) (run [Listen (js ''a'') readyPlatform])) = Idle \<and>
   error (speechSettled (Resolved None) (run [Listen (js ''a'') readyPlatform])) = Some speakError \<and>
   playing (speechSettled (Resolved None) (run [Listen (js ''a'') readyPlatform])) = [] \<and>
   nextHandle (speechSettled (Resolved None) (run [Listen (js ''a'') readyPlatform])) = 0 \<and>
   snd (getSpokenReflection (Rejected TypeError)) = snd (getSpokenReflection (Resolved None))"
proof -
  let ?es = "[Listen (js ''a'') readyPlatform]"
  have h: "listenCall (run ?es) = Some (AwaitSpeech minimalContext)"
    and n: "nextHandle (run ?es) = 0"
    by (simp_all add: run_fetching fetching_def initial_def)
  have p: "None = None \<or> None = Some ([] :: js_string)"
    by simp
  from missing_audio_fails [OF p h, of TypeError] h n
  show ?thesis by (simp add: Let_def)
qed

text \<open>
  Claim C9. \<open>stopPlayback\<close> is idempotent. Where the ref is empty and
  \<open>isSpeaking\<close> is not set, it changes nothing, the trace included; this is so in
  every state of the component whose controller is \<open>Idle\<close>.
\<close>

theorem stopPlayback_idempotent:
  "stopPlayback (stopPlayback s) = stopPlayback s \<and>
   (audioSourceRef s = None \<and> \<not> isSpeaking s \<longrightarrow> stopPlayback s = s) \<and>
   (controllerState (run es) = Idle \<longrightarrow> stopPlayback (run es) = run es)"
proof (intro conjI impI)
  show "stopPlayback (stopPlayback s) = stopPlayback s"
    by (simp add: stopPlayback_def split: option.splits)
  show "stopPlayback s = s" if "audioSourceRef s = None \<and> \<not> isSpeaking s"
    using that by (simp add: stopPlayback_def)
  show "stopPlayback (run es) = run es" if "controllerState (run es) = Idle"
  proof -
    from that have "\<not> isSpeaking (run es)"
      by (simp add: controllerState_def split: if_splits)
    moreover from this have "audioSourceRef (run es) = None"
      using run_inv [of es] by (simp add: single_source_def)
    ultimately show ?thesis by (simp add: stopPlayback_def)
  qed
qed

theorem stopPlayback_idempotent_witness:
  "audioSourceRef initial = None \<and> \<not> isSpeaking initial \<and> stopPlayback initial = initial \<and>
   controllerState (run []) = Idle \<and> stopPlayback (run []) = run [] \<and>
   stopPlayback (stopPlayback (speaking (js ''a''))) = stopPlayback (speaking (js ''a''))"
proof -
  have h: "audioSourceRef initial = None \<and> \<not> isSpeaking initial"
    by (simp add: initial_def)
  have i: "controllerState (run []) = Idle"
    by (simp add: run_def initial_def controllerState_def)
  from stopPlayback_idempotent [of initial "[]"] stopPlayback_idempotent [of "speaking (js ''a'')" "[]"] h i
  show ?thesis by blast
qed

text \<open>
  Claim C10. Where a call of \<open>handleListen\<close> fails (the context cannot be made,
  it cannot be resumed, or no buffer comes of the response), the state after the
  \<open>catch\<close> and the \<open>finally\<close> is the state before with the error message set,
  \<open>isSpeaking\<close> and \<open>isFetchingAudio\<close> cleared, the suspended call gone and the
  logged errors added to the trace. No part of \<open>handleListen\<close> changes the input
  or the reflection, on any path.
\<close>

theorem listen_failure_frame:
  "(\<not> isSpeaking s \<and> \<not> isFetchingAudio s \<and> audioContextRef s = None \<and>
      newAudioContext w = Inl e \<longrightarrow>
      handleListen text w s =
        s\<lparr>error := Some speakError, isSpeaking := False, isFetchingAudio := False,
          listenCall := None, trace := trace s @ [ConsoleError e]\<rparr>) \<and>
   (listenCall s = Some (AwaitResume audioContext text voice) \<longrightarrow>
      resumeSettled (Rejected e) s =
        s\<lparr>error := Some speakError, isSpeaking := False, isFetchingAudio := False,
          listenCall := None, trace := trace s @ [ConsoleError e]\<rparr>) \<and>
   (listenCall s = Some (AwaitSpeech audioContext) \<and>
      fetchAudioBuffer response audioContext = (logged, Inl e) \<longrightarrow>
      speechSettled response s =
        s\<lparr>error := Some speakError, isSpeaking := False, isFetchingAudio := False,
          listenCall := None, trace := trace s @ map ConsoleError logged @ [ConsoleError e]\<rparr>) \<and>
   userInput (handleListen text w s) = userInput s \<and>
   reflection (handleListen text w s) = reflection s \<and>
   userInput (resumeSettled r s) = userInput s \<and>
   reflection (resumeSettled r s) = reflection s \<and>
   userInput (speechSettled response s) = userInput s \<and>
   reflection (speechSettled response s) = reflection s"
proof -
  have first: "handleListen text w s =
        s\<lparr>error := Some speakError, isSpeaking := False, isFetchingAudio := False,
          listenCall := None, trace := trace s @ [ConsoleError e]\<rparr>"
    if "\<not> isSpeaking s \<and> \<not> isFetchingAudio s \<and> audioContextRef s = None \<and>
      newAudioContext w = Inl e"
    using that by (simp add: handleListen_def listenFailed_def Let_def)
  have second: "resumeSettled (Rejected e) s =
        s\<lparr>error := Some speakError, isSpeaking := False, isFetchingAudio := False,
          listenCall := None, trace := trace s @ [ConsoleError e]\<rparr>"
    if "listenCall s = Some (AwaitResume audioContext text voice)"
    using that by (simp add: resumeSettled_def listenFailed_def)
  have third: "speechSettled response s =
        s\<lparr>error := Some speakError, isSpeaking := False, isFetchingAudio := False,
          listenCall := None, trace := trace s @ map ConsoleError logged @ [ConsoleError e]\<rparr>"
    if "listenCall s = Some (AwaitSpeech audioContext) \<and>
      fetchAudioBuffer response audioContext = (logged, Inl e)"
    using that by (simp add: speechSettled_def listenFailed_def Let_def)
  have frame1: "userInput (handleListen text w s) = userInput s"
    "reflection (handleListen text w s) = reflection s"
    by (auto simp: handleListen_def stopPlayback_def listenFailed_def requestSpeech_def Let_def
        split: option.splits sum.splits)
  have frame2: "userInput (resumeSettled r s) = userInput s"
    "reflection (resumeSettled r s) = reflection s"
    by (auto simp: resumeSettled_def listenFailed_def requestSpeech_def
        split: option.splits listen_await.splits settled.splits)
  have frame3: "userInput (speechSettled response s) = userInput s"
    "reflection (speechSettled response s) = reflection s"
    by (auto simp: speechSettled_def listenFailed_def startSource_def Let_def
        split: option.splits listen_await.splits prod.splits sum.splits)
  show ?thesis
    using first second third frame1 frame2 frame3 by blast
qed

theorem listen_failure_frame_witness:
  "\<not> isSpeaking initial \<and> \<not> isFetchingAudio initial \<and> audioContextRef initial = None \<and>
   newAudioContext \<lparr>newAudioContext = Inl (DOMException ''NotSupportedError''),
                    contextSuspended = False\<rparr> = Inl (DOMException ''NotSupportedError'') \<and>
   handleListen (js ''a'')
       \<lparr>newAudioContext = Inl (DOMException ''NotSupportedError''), contextSuspended = False\<rparr>
       initial =
     initial\<lparr>error := Some speakError, isSpeaking := False, isFetchingAudio := False,
       listenCall := None, trace := trace initial @ [ConsoleError (DOMException ''NotSupportedError'')]\<rparr> \<and>
   listenCall (resuming (js ''a'')) = Some (AwaitResume minimalContext (js ''a'') (js ''Kore'')) \<and>
   resumeSettled (Rejected (DOMException ''InvalidStateError'')) (resuming (js ''a'')) =
     (resuming (js ''a''))\<lparr>error := Some speakError, isSpeaking := False, isFetchingAudio := False,
       listenCall := None,
       trace := trace (resuming (js ''a'')) @ [ConsoleError (DOMException ''InvalidStateError'')]\<rparr> \<and>
   listenCall (fetching (js ''a'')) = Some (AwaitSpeech minimalContext) \<and>
   fetchAudioBuffer (Resolved (Some (js ''AA==''))) minimalContext = ([], Inl RangeError) \<and>
   speechSettled (Resolved (Some (js ''AA==''))) (fetching (js ''a'')) =
     (fetching (js ''a''))\<lparr>error := Some speakError, isSpeaking := False, isFetchingAudio := False,
       listenCall := None,
       trace := trace (fetching (js ''a'')) @ map ConsoleError [] @ [ConsoleError RangeError]\<rparr> \<and>
   userInput (speechSettled (Resolved (Some (js ''AA==''))) (fetching (js ''a''))) =
     userInput (fetching (js ''a'')) \<and>
   reflection (speechSettled (Resolved (Some (js ''AA==''))) (fetching (js ''a''))) =
     reflection (fetching (js ''a''))"
proof -
  let ?w = "\<lparr>newAudioContext = Inl (DOMException ''NotSupportedError''), contextSuspended = False\<rparr>"
  have h1: "\<not> isSpeaking initial \<and> \<not> isFetchingAudio initial \<and> audioContextRef initial = None \<and>
      newAudioContext ?w = Inl (DOMException ''NotSupportedError'')"
    by (simp add: initial_def)
  have h2: "listenCall (resuming (js ''a'')) = Some (AwaitResume minimalContext (js ''a'') (js ''Kore''))"
    by (simp add: resuming_def)
  have h3: "listenCall (fetching (js ''a'')) = Some (AwaitSpeech minimalContext)"
    by (simp add: fetching_def)
  have "js ''AA=='' \<noteq> []" by (simp add: js_def)
  moreover have "decodeAudioData [0] minimalContext 24000 1 = Inl RangeError"
    by (simp add: decodeAudioData_def Int16Array_def)
  ultimately have h4: "fetchAudioBuffer (Resolved (Some (js ''AA==''))) minimalContext = ([], Inl RangeError)"
    by (simp add: fetchAudioBuffer_def getSpokenReflection_def decode_one_byte del: One_nat_def)
  from listen_failure_frame
      [of initial ?w "DOMException ''NotSupportedError''" "js ''a''" minimalContext "js ''Kore''"]
    h1
  have c1: "handleListen (js ''a'') ?w initial =
     initial\<lparr>error := Some speakError, isSpeaking := False, isFetchingAudio := False,
       listenCall := None, trace := trace initial @ [ConsoleError (DOMException ''NotSupportedError'')]\<rparr>"
    by blast
  from listen_failure_frame
      [of "resuming (js ''a'')" ?w "DOMException ''InvalidStateError''" "js ''a''" minimalContext "js ''Kore''"]
    h2
  have c2: "resumeSettled (Rejected (DOMException ''InvalidStateError'')) (resuming (js ''a'')) =
     (resuming (js ''a''))\<lparr>error := Some speakError, isSpeaking := False, isFetchingAudio := False,
       listenCall := None,
       trace := trace (resuming (js ''a'')) @ [ConsoleError (DOMException ''InvalidStateError'')]\<rparr>"
    by blast
  from listen_failure_frame
      [of "fetching (js ''a'')" ?w RangeError "js ''a''" minimalContext "js ''Kore''"
          "Resolved (Some (js ''AA==''))" "[]"]
    h3 h4
  have c3: "speechSettled (Resolved (Some (js ''AA==''))) (fetching (js ''a'')) =
     (fetching (js ''a''))\<lparr>error := Some speakError, isSpeaking := False, isFetchingAudio := False,
       listenCall := None,
       trace := trace (fetching (js ''a'')) @ map ConsoleError [] @ [ConsoleError RangeError]\<rparr>"
    and c4: "userInput (speechSettled (Resolved (Some (js ''AA==''))) (fetching (js ''a''))) =
       userInput (fetching (js ''a''))"
    and c5: "reflection (speechSettled (Resolved (Some (js ''AA==''))) (fetching (js ''a''))) =
       reflection (fetching (js ''a''))"
    by blast+
  from h1 h2 h3 h4 c1 c2 c3 c4 c5 show ?thesis
    by (intro conjI) blast+
qed

section \<open>The request for a reflection\<close>

lemma generateRequests_append:
  "generateRequests (a @ b) = generateRequests a @ generateRequests b"
  by (induction a rule: generateRequests.induct) simp_all

lemma generateRequests_ConsoleError:
  "generateRequests (map ConsoleError errs) = []"
  by (induction errs) simp_all

lemma loading_step:
  assumes "isLoading s" "submitCall s" "\<not> isReflectionSettled e"
  shows "isLoading (step e s) \<and> submitCall (step e s) \<and> reflection (step e s) = reflection s
           \<and> generateRequests (trace (step e s)) = generateRequests (trace s)"
  using assms
  by (cases e)
     (auto simp: handleListen_def stopPlayback_def resumeSettled_def speechSettled_def
        sourceEnded_def handleSubmit_def listenFailed_def requestSpeech_def startSource_def
        generateRequests_append generateRequests_ConsoleError Let_def
        split: option.splits sum.splits prod.splits listen_await.splits settled.splits)

lemma loading_steps:
  assumes "isLoading s" "submitCall s" "\<forall>e \<in> set others. \<not> isReflectionSettled e"
  shows "isLoading (foldl (\<lambda>s e. step e s) s others) \<and>
         submitCall (foldl (\<lambda>s e. step e s) s others) \<and>
         reflection (foldl (\<lambda>s e. step e s) s others) = reflection s \<and>
         generateRequests (trace (foldl (\<lambda>s e. step e s) s others)) = generateRequests (trace s)"
  using assms
proof (induction others rule: rev_induct)
  case Nil
  then show ?case by simp
next
  case (snoc e others)
  then show ?case
    using loading_step [of "foldl (\<lambda>s e. step e s) s others" e] by simp
qed

text \<open>
  Claim C8. Let \<open>handleSubmit\<close> pass its guard, let anything but the settling of
  its request happen meanwhile, and let the request then be rejected. Afterwards
  the reflection is empty, the error message is set and \<open>isLoading\<close> is cleared,
  and the trace holds one more request for a reflection than before the call: the one
  that failed, and no second one.
\<close>

theorem generation_failure_is_reported:
  assumes "trim (userInput s) \<noteq> []" "\<not> isLoading s"
    and "\<forall>e \<in> set others. \<not> isReflectionSettled e"
  shows "let s1 = foldl (\<lambda>s e. step e s) (handleSubmit s) others;
             s2 = reflectionSettled (Rejected reason) s1
         in reflection s2 = [] \<and> error s2 = Some generateError \<and> \<not> isLoading s2 \<and>
            generateRequests (trace s2) = generateRequests (trace s) @ [userInput s]"
proof -
  let ?s0 = "handleSubmit s"
  let ?s1 = "foldl (\<lambda>s e. step e s) ?s0 others"
  have s0: "isLoading ?s0" "submitCall ?s0" "reflection ?s0 = []"
    "generateRequests (trace ?s0) = generateRequests (trace s) @ [userInput s]"
    using assms(1,2)
    by (simp_all add: handleSubmit_def stopPlayback_def Let_def generateRequests_append
        split: option.splits)
  have s1: "submitCall ?s1" "reflection ?s1 = []"
    "generateRequests (trace ?s1) = generateRequests (trace s) @ [userInput s]"
    using loading_steps [OF s0(1,2) assms(3)] s0(3,4) by simp_all
  show ?thesis
    using s1 by (simp add: reflectionSettled_def getReflection_def Let_def generateRequests_append)
qed

theorem generation_failure_is_reported_witness:
  "trim (userInput (run [Typed (js ''hi'')])) \<noteq> [] \<and>
   \<not> isLoading (run [Typed (js ''hi'')]) \<and>
   \<not> isReflectionSettled (Listen (js ''a'') readyPlatform) \<and>
   reflection (reflectionSettled (Rejected TypeError)
     (foldl (\<lambda>s e. step e s) (handleSubmit (run [Typed (js ''hi'')]))
        [Listen (js ''a'') readyPlatform])) = [] \<and>
   error (reflectionSettled (Rejected TypeError)
     (foldl (\<lambda>s e. step e s) (handleSubmit (run [Typed (js ''hi'')]))
        [Listen (js ''a'') readyPlatform])) = Some generateError \<and>
   \<not> isLoading (reflectionSettled (Rejected TypeError)
     (foldl (\<lambda>s e. step e s) (handleSubmit (run [Typed (js ''hi'')]))
        [Listen (js ''a'') readyPlatform])) \<and>
   generateRequests (trace (reflectionSettled (Rejected TypeError)
     (foldl (\<lambda>s e. step e s) (handleSubmit (run [Typed (js ''hi'')]))
        [Listen (js ''a'') readyPlatform]))) = [js ''hi'']"
proof -
  let ?s = "run [Typed (js ''hi'')]"
  have r: "?s = initial\<lparr>userInput := js ''hi''\<rparr>"
    by (simp add: run_def)
  have h2: "\<not> isLoading ?s" and t: "trace ?s = []" and u: "userInput ?s = js ''hi''"
    by (simp_all add: r initial_def)
  have h1: "trim (userInput ?s) \<noteq> []"
    unfolding u by (simp add: trim_def js_def isWhiteSpace_def)
  have h3: "\<forall>e \<in> set [Listen (js ''a'') readyPlatform]. \<not> isReflectionSettled e"
    by simp
  from generation_failure_is_reported [OF h1 h2 h3, of TypeError] h1 h2 t u
  show ?thesis by (simp add: Let_def)
qed

end
